theory Spec2Isabelle
  imports Complex_Main
begin

section \<open>Python values used by the program\<close>

text \<open>
  Python floats are idealised as \<^typ>\<open>real\<close>; Python integers are \<^typ>\<open>int\<close>; a
  \<open>str\<close> is a \<^typ>\<open>string\<close> of one-byte characters; a \<open>dict\<close> is a map.  An exception
  that leaves a method is a value \<open>Inl e\<close> of the result.
\<close>

datatype error = ZeroDivisionError | AttributeError | KeyError

text \<open>
  A slice bound of \<open>xs[a:b]\<close> on a sequence of length \<open>n\<close>: a negative bound counts
  from the end, and every bound is clipped to \<open>0 .. n\<close>.
\<close>

definition py_bound :: "int \<Rightarrow> nat \<Rightarrow> nat" where
  "py_bound i n = (if i < 0 then nat (max (i + int n) 0) else min (nat i) n)"

definition py_slice :: "int \<Rightarrow> int \<Rightarrow> 'a list \<Rightarrow> 'a list" where
  "py_slice a b xs =
     (let lo = py_bound a (length xs); hi = py_bound b (length xs)
      in take (hi - lo) (drop lo xs))"

definition py_slice_from :: "int \<Rightarrow> 'a list \<Rightarrow> 'a list" where
  "py_slice_from a xs = drop (py_bound a (length xs)) xs"

text \<open>\<open>round(x, 1)\<close>: to one decimal place, an exact tie going to the even digit.\<close>

definition py_round1 :: "real \<Rightarrow> real" where
  "py_round1 x =
     (let y = x * 10; f = \<lfloor>y\<rfloor>; d = y - of_int f
      in (if d < 1 / 2 then of_int f
          else if 1 / 2 < d then of_int (f + 1)
          else if even f then of_int f else of_int (f + 1)) / 10)"

section \<open>speed\_estimator.py\<close>

text \<open>
  One entry of \<open>SpeedEstimator.tracker_data\<close>.  The perspective transform of
  \<open>get_real_world_pos\<close> is computed by OpenCV from the matrix \<open>M\<close>; it is the
  parameter \<open>gp\<close> of the model, a pure function from an image point to a ground point.
\<close>

record track =
  last_frame :: int
  last_pos :: "real \<times> real"
  speed_history :: "real list"
  current_speed :: real
  stable_frames :: int
  hits :: int

type_synonym tracker_data = "int \<rightharpoonup> track"

text \<open>\<open>np.linalg.norm(ground_pos - data['last_pos'])\<close> on two-element vectors.\<close>

definition norm2 :: "real \<times> real \<Rightarrow> real \<times> real \<Rightarrow> real" where
  "norm2 p q = sqrt ((fst p - fst q)\<^sup>2 + (snd p - snd q)\<^sup>2)"

text \<open>Lines 64 to 69: the instantaneous speed in km/h (evaluated only when \<open>fps\<close> is not 0).\<close>

definition inst_speed_kmh :: "real \<times> real \<Rightarrow> real \<times> real \<Rightarrow> int \<Rightarrow> real \<Rightarrow> real" where
  "inst_speed_kmh ground_pos lastp frames_elapsed fps =
     (let dist = norm2 ground_pos lastp;
          time_elapsed = real_of_int frames_elapsed / fps;
          speed_ms = dist / time_elapsed
      in speed_ms * 3.6)"

text \<open>Lines 78 to 80: the average over the sorted history.\<close>

definition avg_speed :: "real list \<Rightarrow> real" where
  "avg_speed history =
     (let sorted_history = sort history;
          mid = int (length sorted_history) div 2
      in if length sorted_history > 15
         then sum_list (py_slice (mid - 5) (mid + 5) sorted_history) / 10
         else sum_list sorted_history / real (length sorted_history))"

text \<open>
  Lines 73 to 85: the update of the entry by an accepted sample.  In \<open>estimate_speed\<close>
  below, \<open>frames_elapsed / fps\<close> raises ZeroDivisionError for a frame rate of 0; this
  happens before the entry is changed.
\<close>

definition accept_sample :: "track \<Rightarrow> real \<Rightarrow> int \<Rightarrow> track" where
  "accept_sample data inst frames_elapsed =
     (let h1 = speed_history data @ [inst];
          h2 = (if length h1 > 25 then tl h1 else h1)
      in data\<lparr>speed_history := h2,
              current_speed := min (py_round1 (avg_speed h2)) 160,
              stable_frames := stable_frames data + frames_elapsed,
              hits := hits data + 1\<rparr>)"

definition estimate_speed ::
  "(int \<times> int \<Rightarrow> real \<times> real) \<Rightarrow> tracker_data \<Rightarrow> int \<Rightarrow> int \<times> int \<Rightarrow> int \<Rightarrow> real
     \<Rightarrow> error + (real \<times> tracker_data)" where
  "estimate_speed gp td track_id current_pos current_frame fps =
     (let ground_pos = gp current_pos in
      case td track_id of
        None \<Rightarrow>
          Inr (0, td(track_id \<mapsto>
                 \<lparr>last_frame = current_frame, last_pos = ground_pos, speed_history = [],
                  current_speed = 0, stable_frames = 0, hits = 0\<rparr>))
      | Some data \<Rightarrow>
          (let frames_elapsed = current_frame - last_frame data in
           if frames_elapsed \<le> 0 then Inr (current_speed data, td)
           else if fps = 0 then Inl ZeroDivisionError
           else
             (let inst = inst_speed_kmh ground_pos (last_pos data) frames_elapsed fps;
                  data1 = (if 5 < inst \<and> inst < 220
                           then accept_sample data inst frames_elapsed else data);
                  data2 = data1\<lparr>last_pos := ground_pos, last_frame := current_frame\<rparr>;
                  td' = td(track_id \<mapsto> data2)
              in if stable_frames data2 < 15 \<or> hits data2 < 8 then Inr (0, td')
                 else Inr (current_speed data2, td'))))"

text \<open>
  A caller's sequence of calls on one estimator, each call a tuple
  \<open>(track_id, current_pos, current_frame, fps)\<close>: the returned speeds in order and the
  final state; an exception ends the sequence.
\<close>

type_synonym speed_call = "int \<times> (int \<times> int) \<times> int \<times> real"

fun run_calls ::
  "(int \<times> int \<Rightarrow> real \<times> real) \<Rightarrow> tracker_data \<Rightarrow> speed_call list
     \<Rightarrow> error + (real list \<times> tracker_data)" where
  "run_calls gp td [] = Inr ([], td)"
| "run_calls gp td ((tid, pos, frame, fps) # cs) =
     (case estimate_speed gp td tid pos frame fps of
        Inl e \<Rightarrow> Inl e
      | Inr (v, td1) \<Rightarrow>
          (case run_calls gp td1 cs of
             Inl e \<Rightarrow> Inl e
           | Inr (vs, td2) \<Rightarrow> Inr (v # vs, td2)))"

text \<open>The identity calibration, for concrete runs: the ground point is the image point.\<close>

definition gp_id :: "int \<times> int \<Rightarrow> real \<times> real" where
  "gp_id p = (real_of_int (fst p), real_of_int (snd p))"

text \<open>
  The mean as the specification words it: sort a copy of the history; when it has more
  than 15 samples take the mean of the 10 samples at the sorted indices \<open>mid - 5\<close> to
  \<open>mid + 4\<close>, otherwise the mean of all samples.  The rounding to one decimal place and
  the minimum with 160 are stated in the theorem itself.
\<close>

definition window_mean_spec :: "real list \<Rightarrow> real" where
  "window_mean_spec history =
     (let s = sort history; mid = length s div 2
      in if length s > 15
         then (\<Sum>i\<leftarrow>[mid - 5 ..< mid + 5]. s ! i) / 10
         else sum_list s / real (length s))"

text \<open>Track entries of a vehicle driving one ground metre per frame at 30 frames per second.\<close>

abbreviation track_new :: track where
  "track_new \<equiv> \<lparr>last_frame = 0, last_pos = (0, 0), speed_history = [],
                 current_speed = 0, stable_frames = 0, hits = 0\<rparr>"

abbreviation track_one_hit :: track where
  "track_one_hit \<equiv> \<lparr>last_frame = 1, last_pos = (0, 1), speed_history = [108],
                     current_speed = 108, stable_frames = 1, hits = 1\<rparr>"

abbreviation track_two_hits :: track where
  "track_two_hits \<equiv> \<lparr>last_frame = 2, last_pos = (0, 2), speed_history = [108, 108],
                      current_speed = 108, stable_frames = 2, hits = 2\<rparr>"

text \<open>
  An entry with fifteen unsorted samples, and the entry after one more accepted sample
  of 108 km/h: the sorted window then holds 95.7 to 115, with mean 103.37.
\<close>

abbreviation track_fifteen :: track where
  "track_fifteen \<equiv> \<lparr>last_frame = 15, last_pos = (0, 15),
       speed_history = [100, 120, 90, 110, 957 / 10, 105, 115, 85, 125, 80, 130, 101, 99, 102, 98],
       current_speed = 1037 / 10, stable_frames = 15, hits = 15\<rparr>"

abbreviation track_sixteen :: track where
  "track_sixteen \<equiv> \<lparr>last_frame = 16, last_pos = (0, 16),
       speed_history = [100, 120, 90, 110, 957 / 10, 105, 115, 85, 125, 80, 130, 101, 99, 102, 98, 108],
       current_speed = 1034 / 10, stable_frames = 16, hits = 16\<rparr>"

text \<open>
  What every entry of a reachable estimator state satisfies: the stored samples all exceed
  5, and once a sample has been accepted the stored speed is at least 5.
\<close>

definition track_inv :: "track \<Rightarrow> bool" where
  "track_inv d = ((\<forall>x\<in>set (speed_history d). 5 < x) \<and> (0 < hits d \<longrightarrow> 5 \<le> current_speed d))"

definition td_inv :: "tracker_data \<Rightarrow> bool" where
  "td_inv td = (\<forall>t d. td t = Some d \<longrightarrow> track_inv d)"

text \<open>
  The entry of a vehicle that was first seen at frame 0, then at frame 8 eight metres on,
  and since then once a frame one metre on, after \<open>k\<close> accepted samples.
\<close>

definition cruising :: "int \<Rightarrow> track" where
  "cruising k = \<lparr>last_frame = 7 + k, last_pos = (0, 7 + real_of_int k),
                 speed_history = replicate (nat k) 108, current_speed = 108,
                 stable_frames = 7 + k, hits = k\<rparr>"

section \<open>alpr.py\<close>

text \<open>
  An image is its rows of pixels, a pixel standing for its colour channels.  The code
  only compares \<open>img.size\<close> with 0, and the size is 0 exactly when the image has no row
  or no column: \<open>img_size\<close> counts the pixels.  \<open>frame[y1:y2, x1:x2]\<close> slices the rows and
  then every row.
\<close>

type_synonym image = "nat list list"

type_synonym box = "int \<times> int \<times> int \<times> int"

definition img_size :: "image \<Rightarrow> nat" where
  "img_size img = (case img of [] \<Rightarrow> 0 | row # _ \<Rightarrow> length img * length row)"

definition crop :: "image \<Rightarrow> int \<Rightarrow> int \<Rightarrow> int \<Rightarrow> int \<Rightarrow> image" where
  "crop img y1 y2 x1 x2 = map (py_slice x1 x2) (py_slice y1 y2 img)"

text \<open>
  \<open>_clean_plate_text\<close>: \<open>text.upper()\<close>, then every character outside \<open>A-Z0-9\<close> removed.
  On one-byte characters \<open>upper\<close> maps \<open>a\<close> to \<open>z\<close> to capitals (code minus 32, which
  clears the bit of value 32) and the sharp s (code 223) to \<open>SS\<close>; every other character is either unchanged or becomes a character that the
  filter removes, and is left as it is here.
\<close>

definition upper_char :: "char \<Rightarrow> string" where
  "upper_char c =
     (if 97 \<le> (of_char c :: nat) \<and> (of_char c :: nat) \<le> 122
      then [case c of Char b0 b1 b2 b3 b4 b5 b6 b7 \<Rightarrow> Char b0 b1 b2 b3 b4 False b6 b7]
      else if (of_char c :: nat) = 223 then ''SS''
      else [c])"

definition is_plate_char :: "char \<Rightarrow> bool" where
  "is_plate_char c =
     ((65 \<le> (of_char c :: nat) \<and> (of_char c :: nat) \<le> 90)
      \<or> (48 \<le> (of_char c :: nat) \<and> (of_char c :: nat) \<le> 57))"

definition clean_plate_text :: "string \<Rightarrow> string" where
  "clean_plate_text t = filter is_plate_char (concat (map upper_char t))"

text \<open>
  The object: whether the plate model was loaded, whether \<open>self.reader\<close> is an engine
  (and not \<open>None\<close>), and the cache.  The two counters are not attributes of the class:
  they count the calls of \<open>self.reader.readtext\<close> and of \<open>self.plate_model\<close>, the effects
  that the specification speaks of.  The engine and the plate model are the parameters
  \<open>readtext\<close> and \<open>plate_model\<close>: the candidates \<open>(text, confidence)\<close> read in an image, and
  for each result the boxes found, their coordinates already converted by \<open>int\<close>.
\<close>

record cache_entry =
  cache_text :: string
  last_attempt :: real

record plate_reader =
  model_loaded :: bool
  reader_ok :: bool
  plate_cache :: "int \<rightharpoonup> cache_entry"
  ocr_calls :: nat
  detector_calls :: nat

type_synonym ocr_engine = "image \<Rightarrow> (string \<times> real) list"

type_synonym plate_detector = "image \<Rightarrow> box list list"

text \<open>Python's truth value of a result that is \<open>None\<close> or a string.\<close>

fun falsy :: "string option \<Rightarrow> bool" where
  "falsy None = True"
| "falsy (Some t) = (t = [])"

text \<open>Lines 124 to 129: the best candidate of the fallback.\<close>

fun best_candidate ::
  "(string \<times> real) list \<Rightarrow> string option \<Rightarrow> real \<Rightarrow> string option \<times> real" where
  "best_candidate [] best_text best_conf = (best_text, best_conf)"
| "best_candidate ((t, conf) # rest) best_text best_conf =
     (let cleaned = clean_plate_text t in
      if length cleaned \<ge> 5 \<and> conf > best_conf
      then best_candidate rest (Some cleaned) conf
      else best_candidate rest best_text best_conf)"

definition fallback_ocr ::
  "ocr_engine \<Rightarrow> plate_reader \<Rightarrow> image \<Rightarrow> string option \<times> plate_reader" where
  "fallback_ocr readtext self vehicle_frame =
     (if \<not> reader_ok self then (None, self)
      else
        (let h = length vehicle_frame;
             bottom_half = py_slice_from ((2 * int h) div 5) vehicle_frame
         in if img_size bottom_half = 0 then (None, self)
            else
              (let ocr_results = readtext bottom_half;
                   self1 = self\<lparr>ocr_calls := ocr_calls self + 1\<rparr>;
                   best_text = fst (best_candidate ocr_results None 0)
               in if falsy best_text then (None, self1) else (best_text, self1))))"

text \<open>
  Lines 74 to 90: the boxes of one result.  \<open>break\<close> leaves this loop only, so the next
  result is still scanned.  With \<open>self.reader\<close> being \<open>None\<close>, \<open>self.reader.readtext\<close>
  raises AttributeError.
\<close>

fun scan_boxes ::
  "ocr_engine \<Rightarrow> image \<Rightarrow> box list \<Rightarrow> string option \<Rightarrow> plate_reader
     \<Rightarrow> error + (string option \<times> plate_reader)" where
  "scan_boxes readtext vehicle_frame [] best self = Inr (best, self)"
| "scan_boxes readtext vehicle_frame ((x1, y1, x2, y2) # boxes) best self =
     (let plate_crop = crop vehicle_frame y1 y2 x1 x2 in
      if img_size plate_crop = 0 then scan_boxes readtext vehicle_frame boxes best self
      else if \<not> reader_ok self then Inl AttributeError
      else
        (let self1 = self\<lparr>ocr_calls := ocr_calls self + 1\<rparr> in
         case readtext plate_crop of
           [] \<Rightarrow> scan_boxes readtext vehicle_frame boxes best self1
         | (t, conf) # _ \<Rightarrow>
             if conf > 3 / 10 then Inr (Some (clean_plate_text t), self1)
             else scan_boxes readtext vehicle_frame boxes best self1))"

fun scan_results ::
  "ocr_engine \<Rightarrow> image \<Rightarrow> box list list \<Rightarrow> string option \<Rightarrow> plate_reader
     \<Rightarrow> error + (string option \<times> plate_reader)" where
  "scan_results readtext vehicle_frame [] best self = Inr (best, self)"
| "scan_results readtext vehicle_frame (boxes # results) best self =
     (case scan_boxes readtext vehicle_frame boxes best self of
        Inl e \<Rightarrow> Inl e
      | Inr (best1, self1) \<Rightarrow> scan_results readtext vehicle_frame results best1 self1)"

text \<open>Lines 53 to 61: what the cache answers, if it answers.\<close>

definition cached_answer :: "plate_reader \<Rightarrow> int \<Rightarrow> real \<Rightarrow> string option" where
  "cached_answer self track_id now =
     (case plate_cache self track_id of
        None \<Rightarrow> None
      | Some data \<Rightarrow>
          if cache_text data \<noteq> [] \<and> cache_text data \<noteq> ''Unknown'' then Some (cache_text data)
          else if now - last_attempt data < 2 then Some (cache_text data)
          else None)"

definition detect_and_read ::
  "ocr_engine \<Rightarrow> plate_detector \<Rightarrow> plate_reader \<Rightarrow> image \<Rightarrow> int \<Rightarrow> real
     \<Rightarrow> error + (string option \<times> plate_reader)" where
  "detect_and_read readtext plate_model self vehicle_frame track_id now =
     (case cached_answer self track_id now of
        Some t \<Rightarrow> Inr (Some t, self)
      | None \<Rightarrow>
          if \<not> model_loaded self then Inr (fallback_ocr readtext self vehicle_frame)
          else
            (let results = plate_model vehicle_frame;
                 self1 = self\<lparr>detector_calls := detector_calls self + 1\<rparr>
             in case scan_results readtext vehicle_frame results None self1 of
                  Inl e \<Rightarrow> Inl e
                | Inr (best, self2) \<Rightarrow>
                    (let (best_plate_text, self3) =
                           (if falsy best \<or> best = Some ''Scanning...''
                            then fallback_ocr readtext self2 vehicle_frame
                            else (best, self2))
                     in case best_plate_text of
                          None \<Rightarrow> Inr (Some ''Scanning...'', self3)
                        | Some t \<Rightarrow>
                            if t = [] then Inr (Some ''Scanning...'', self3)
                            else Inr (Some t,
                                  self3\<lparr>plate_cache := (plate_cache self3)(track_id \<mapsto>
                                     \<lparr>cache_text = t, last_attempt = now\<rparr>)\<rparr>))))"

text \<open>A reader with the plate model and the engine, nothing cached, nothing called yet.\<close>

abbreviation reader_new :: plate_reader where
  "reader_new \<equiv> \<lparr>model_loaded = True, reader_ok = True, plate_cache = Map.empty,
                  ocr_calls = 0, detector_calls = 0\<rparr>"

abbreviation frame22 :: image where
  "frame22 \<equiv> [[0, 0], [0, 0]]"

section \<open>processor.py\<close>

text \<open>
  One emitted detection, and the processor with its two collaborators.  The loop of
  \<open>process_frame_data\<close> runs over the tracked boxes of the detector's first result:
  the box (its coordinates converted by \<open>int\<close>), the track id, the confidence and the
  class id; the last component is the clock that \<open>detect_and_read\<close> reads for this box.
  \<open>names\<close> is the detector's table of class names and \<open>draw\<close> stands for the OpenCV calls
  that draw the box and its label into the frame.
\<close>

record detection =
  track_id :: int
  vehicle_type :: string
  confidence :: real
  box_coordinates :: "int list"
  license_plate :: "string option"
  speed :: real

record video_processor =
  speed_estimator :: tracker_data
  alpr_reader :: plate_reader

type_synonym tracked_box = "box \<times> int \<times> real \<times> int \<times> real"

type_synonym drawing = "image \<Rightarrow> box \<Rightarrow> int \<Rightarrow> string option \<Rightarrow> real \<Rightarrow> image"

text \<open>\<open>(int((x1 + x2) / 2), y2)\<close>: \<open>int\<close> truncates towards zero.\<close>

definition bottom_center :: "int \<Rightarrow> int \<Rightarrow> int \<Rightarrow> int \<times> int" where
  "bottom_center x1 x2 y2 =
     (if 0 \<le> x1 + x2 then (x1 + x2) div 2 else - ((- (x1 + x2)) div 2), y2)"

text \<open>Lines 60 to 65: the plate of one box.\<close>

definition read_box_plate ::
  "ocr_engine \<Rightarrow> plate_detector \<Rightarrow> plate_reader \<Rightarrow> image \<Rightarrow> box \<Rightarrow> int \<Rightarrow> real
     \<Rightarrow> error + (string option \<times> plate_reader)" where
  "read_box_plate readtext plate_model reader frame b tid now =
     (case b of (x1, y1, x2, y2) \<Rightarrow>
        (let vehicle_crop = crop frame y1 y2 x1 x2 in
         if img_size vehicle_crop > 0 then
           (case detect_and_read readtext plate_model reader vehicle_crop tid now of
              Inl e \<Rightarrow> Inl e
            | Inr (read_plate, reader1) \<Rightarrow>
                if falsy read_plate \<or> read_plate = Some ''Scanning...''
                then Inr (None, reader1) else Inr (read_plate, reader1))
         else Inr (None, reader)))"

text \<open>Lines 51 to 95: the body of the loop, for one tracked box.\<close>

definition process_box ::
  "(int \<times> int \<Rightarrow> real \<times> real) \<Rightarrow> ocr_engine \<Rightarrow> plate_detector \<Rightarrow> (int \<rightharpoonup> string)
     \<Rightarrow> drawing \<Rightarrow> int \<Rightarrow> real \<Rightarrow> bool \<Rightarrow> image \<Rightarrow> video_processor \<Rightarrow> tracked_box
     \<Rightarrow> error + (detection \<times> image \<times> video_processor)" where
  "process_box gp readtext plate_model names draw frame_number fps annotate frame self tb =
     (case tb of (b, tid, conf, cls_id, now) \<Rightarrow>
      (case b of (x1, y1, x2, y2) \<Rightarrow>
        (case estimate_speed gp (speed_estimator self) tid (bottom_center x1 x2 y2)
                frame_number fps of
           Inl e \<Rightarrow> Inl e
         | Inr (v, td') \<Rightarrow>
             (case read_box_plate readtext plate_model (alpr_reader self) frame b tid now of
                Inl e \<Rightarrow> Inl e
              | Inr (plate_text, reader') \<Rightarrow>
                  (case names cls_id of
                     None \<Rightarrow> Inl KeyError
                   | Some vt \<Rightarrow>
                       Inr (\<lparr>track_id = tid, vehicle_type = vt, confidence = conf,
                             box_coordinates = [x1, y1, x2, y2],
                             license_plate = plate_text, speed = v\<rparr>,
                            if annotate then draw frame b tid plate_text v else frame,
                            \<lparr>speed_estimator = td', alpr_reader = reader'\<rparr>))))))"

fun process_boxes ::
  "(int \<times> int \<Rightarrow> real \<times> real) \<Rightarrow> ocr_engine \<Rightarrow> plate_detector \<Rightarrow> (int \<rightharpoonup> string)
     \<Rightarrow> drawing \<Rightarrow> int \<Rightarrow> real \<Rightarrow> bool \<Rightarrow> image \<Rightarrow> video_processor \<Rightarrow> tracked_box list
     \<Rightarrow> error + (detection list \<times> image \<times> video_processor)" where
  "process_boxes gp readtext plate_model names draw frame_number fps annotate frame self [] =
     Inr ([], frame, self)"
| "process_boxes gp readtext plate_model names draw frame_number fps annotate frame self (tb # tbs) =
     (case process_box gp readtext plate_model names draw frame_number fps annotate frame self tb of
        Inl e \<Rightarrow> Inl e
      | Inr (d, frame1, self1) \<Rightarrow>
          (case process_boxes gp readtext plate_model names draw frame_number fps annotate
                  frame1 self1 tbs of
             Inl e \<Rightarrow> Inl e
           | Inr (ds, frame2, self2) \<Rightarrow> Inr (d # ds, frame2, self2)))"

text \<open>
  \<open>process_frame_data\<close> on the decoded frame.  \<open>tracked\<close> is \<open>None\<close> when the detector
  returned no result, no boxes or no track ids; then nothing is emitted.  The annotated
  frame is returned (there encoded) only when \<open>annotate\<close> is set.
\<close>

definition process_frame_data ::
  "(int \<times> int \<Rightarrow> real \<times> real) \<Rightarrow> ocr_engine \<Rightarrow> plate_detector \<Rightarrow> (int \<rightharpoonup> string)
     \<Rightarrow> drawing \<Rightarrow> video_processor \<Rightarrow> image \<Rightarrow> tracked_box list option \<Rightarrow> int \<Rightarrow> real \<Rightarrow> bool
     \<Rightarrow> error + ((detection list \<times> image option) \<times> video_processor)" where
  "process_frame_data gp readtext plate_model names draw self frame tracked frame_number fps annotate =
     (case process_boxes gp readtext plate_model names draw frame_number fps annotate frame self
             (case tracked of None \<Rightarrow> [] | Some tbs \<Rightarrow> tbs) of
        Inl e \<Rightarrow> Inl e
      | Inr (detections, frame', self') \<Rightarrow>
          Inr ((detections, if annotate then Some frame' else None), self'))"

abbreviation processor_new :: video_processor where
  "processor_new \<equiv> \<lparr>speed_estimator = Map.empty, alpr_reader = reader_new\<rparr>"

text \<open>
  An engine that reads a plate in the one-row crop only, the reader after that reading,
  and the two records of a frame whose first box is read and whose second is not.
\<close>

abbreviation reads_one_row :: ocr_engine where
  "reads_one_row \<equiv> \<lambda>img. if img = [[0, 0]] then [(''ab-1234'', 9 / 10)] else []"

abbreviation reader_one_plate :: plate_reader where
  "reader_one_plate \<equiv> \<lparr>model_loaded = True, reader_ok = True,
       plate_cache = [1 \<mapsto> \<lparr>cache_text = ''AB1234'', last_attempt = 100\<rparr>],
       ocr_calls = 1, detector_calls = 1\<rparr>"

abbreviation detection_read :: detection where
  "detection_read \<equiv> \<lparr>track_id = 1, vehicle_type = ''car'', confidence = 9 / 10,
       box_coordinates = [0, 0, 2, 1], license_plate = Some ''AB1234'', speed = 0\<rparr>"

abbreviation detection_unread :: detection where
  "detection_unread \<equiv> \<lparr>track_id = 2, vehicle_type = ''car'', confidence = 1 / 2,
       box_coordinates = [0, 0, 2, 2], license_plate = None, speed = 0\<rparr>"

section \<open>Theorems\<close>

subsection \<open>Helper lemmas of the speed estimator\<close>

lemma drop_take_nth:
  "hi \<le> length s \<Longrightarrow> drop lo (take hi s) = map ((!) s) [lo ..< hi]"
  by (rule nth_equalityI) auto

lemma py_slice_window:
  assumes "15 < length s"
  shows "py_slice (int (length s) div 2 - 5) (int (length s) div 2 + 5) s
           = map ((!) s) [length s div 2 - 5 ..< length s div 2 + 5]"
proof -
  let ?n = "length s" and ?m = "length s div 2"
  have m: "int ?n div 2 = int ?m" by simp
  have lo: "py_bound (int ?m - 5) ?n = ?m - 5"
    using assms by (auto simp add: py_bound_def)
  have hi: "py_bound (int ?m + 5) ?n = ?m + 5"
    using assms by (auto simp add: py_bound_def)
  have le: "?m + 5 \<le> ?n" using assms by linarith
  have "take (?m + 5 - (?m - 5)) (drop (?m - 5) s) = drop (?m - 5) (take (?m + 5) s)"
    by (simp add: drop_take)
  also have "\<dots> = map ((!) s) [?m - 5 ..< ?m + 5]"
    using le by (rule drop_take_nth)
  finally show ?thesis
    unfolding py_slice_def Let_def m lo hi .
qed

lemma avg_speed_window_mean: "avg_speed h = window_mean_spec h"
proof (cases "15 < length h")
  case True
  then have "15 < length (sort h)" by simp
  from py_slice_window[OF this] True show ?thesis
    by (simp add: avg_speed_def window_mean_spec_def Let_def)
next
  case False
  then show ?thesis by (simp add: avg_speed_def window_mean_spec_def Let_def)
qed

lemma py_round1_nearest:
  "\<exists>k::int. py_round1 x = real_of_int k / 10 \<and> \<bar>real_of_int k / 10 - x\<bar> \<le> 1 / 20
      \<and> (\<bar>real_of_int k / 10 - x\<bar> = 1 / 20 \<longrightarrow> even k)"
proof -
  let ?f = "\<lfloor>x * 10\<rfloor>"
  let ?d = "x * 10 - real_of_int ?f"
  have lo: "0 \<le> ?d" and hi: "?d < 1" by linarith+
  consider "?d < 1 / 2" | "1 / 2 < ?d" | "?d = 1 / 2" "even ?f" | "?d = 1 / 2" "odd ?f"
    by fastforce
  then show ?thesis
  proof cases
    case 1
    then have "py_round1 x = real_of_int ?f / 10" by (simp add: py_round1_def Let_def)
    moreover have "\<bar>real_of_int ?f / 10 - x\<bar> < 1 / 20" using 1 lo by (simp add: abs_less_iff field_simps)
    ultimately show ?thesis by (intro exI[of _ ?f]) simp
  next
    case 2
    then have "py_round1 x = real_of_int (?f + 1) / 10" by (simp add: py_round1_def Let_def)
    moreover have "\<bar>real_of_int (?f + 1) / 10 - x\<bar> < 1 / 20"
      using 2 hi by (simp add: abs_less_iff field_simps)
    ultimately show ?thesis by (intro exI[of _ "?f + 1"]) simp
  next
    case 3
    then have "py_round1 x = real_of_int ?f / 10" by (simp add: py_round1_def Let_def)
    moreover have "\<bar>real_of_int ?f / 10 - x\<bar> \<le> 1 / 20" using 3 by (simp add: abs_le_iff field_simps)
    ultimately show ?thesis using 3(2) by (intro exI[of _ ?f]) simp
  next
    case 4
    then have "py_round1 x = real_of_int (?f + 1) / 10" by (simp add: py_round1_def Let_def)
    moreover have "\<bar>real_of_int (?f + 1) / 10 - x\<bar> \<le> 1 / 20"
      using 4 by (simp add: abs_le_iff field_simps)
    ultimately show ?thesis using 4(2) by (intro exI[of _ "?f + 1"]) simp
  qed
qed

lemma estimate_speed_step:
  assumes "td tid = Some data" and "last_frame data < current_frame" and "fps \<noteq> 0"
  shows "estimate_speed gp td tid current_pos current_frame fps =
     (let frames_elapsed = current_frame - last_frame data;
          inst = inst_speed_kmh (gp current_pos) (last_pos data) frames_elapsed fps;
          data1 = (if 5 < inst \<and> inst < 220
                           then accept_sample data inst frames_elapsed else data);
          data2 = data1\<lparr>last_pos := gp current_pos, last_frame := current_frame\<rparr>
      in Inr (if stable_frames data2 < 15 \<or> hits data2 < 8 then 0 else current_speed data2,
              td(tid \<mapsto> data2)))"
  using assms by (simp add: estimate_speed_def Let_def)

subsection \<open>The scenario, call by call\<close>

lemma inst_speed_one_metre: "inst_speed_kmh (0, 1) (0, 0) 1 30 = 108"
  by (simp add: inst_speed_kmh_def norm2_def)

lemma inst_speed_second_metre: "inst_speed_kmh (0, 2) (0, 1) 1 30 = 108"
  by (simp add: inst_speed_kmh_def norm2_def)

lemma inst_speed_standing: "inst_speed_kmh (0, 0) (0, 0) 1 30 = 0"
  by (simp add: inst_speed_kmh_def norm2_def)

lemma py_round1_108: "py_round1 108 = 108"
  by (simp add: py_round1_def Let_def)

lemma avg_speed_one: "avg_speed [108] = 108"
  by (simp add: avg_speed_def)

lemma avg_speed_two: "avg_speed [108, 108] = 108"
  by (simp add: avg_speed_def)

lemma accept_first: "accept_sample track_new 108 1 =
    \<lparr>last_frame = 0, last_pos = (0, 0), speed_history = [108],
     current_speed = 108, stable_frames = 1, hits = 1\<rparr>"
  by (simp add: accept_sample_def avg_speed_one py_round1_108)

lemma accept_second: "accept_sample track_one_hit 108 1 =
    \<lparr>last_frame = 1, last_pos = (0, 1), speed_history = [108, 108],
     current_speed = 108, stable_frames = 2, hits = 2\<rparr>"
  by (simp add: accept_sample_def avg_speed_two py_round1_108)

lemma call_first: "estimate_speed gp_id Map.empty 1 (0, 0) 0 30 = Inr (0, [1 \<mapsto> track_new])"
  by (simp add: estimate_speed_def gp_id_def)

lemma call_second:
  "estimate_speed gp_id [1 \<mapsto> track_new] 1 (0, 1) 1 30 = Inr (0, [1 \<mapsto> track_one_hit])"
  by (simp add: estimate_speed_def gp_id_def inst_speed_one_metre accept_first)

lemma call_same_frame:
  "estimate_speed gp_id [1 \<mapsto> track_one_hit] 1 (0, 1) 1 30 = Inr (108, [1 \<mapsto> track_one_hit])"
  by (simp add: estimate_speed_def)

lemma call_third:
  "estimate_speed gp_id [1 \<mapsto> track_one_hit] 1 (0, 2) 2 30 = Inr (0, [1 \<mapsto> track_two_hits])"
  by (simp add: estimate_speed_def gp_id_def inst_speed_second_metre accept_second)

lemma sort16:
  "sort [100, 120, 90, 110, 957 / 10, 105, 115, 85, 125, 80, 130, 101, 99, 102, 98, 108 :: real]
     = [80, 85, 90, 957 / 10, 98, 99, 100, 101, 102, 105, 108, 110, 115, 120, 125, 130]"
  by simp

lemma avg16:
  "avg_speed [100, 120, 90, 110, 957 / 10, 105, 115, 85, 125, 80, 130, 101, 99, 102, 98, 108]
     = 10337 / 100"
  by (simp add: avg_speed_def sort16 py_slice_def py_bound_def)

lemma round16: "py_round1 (10337 / 100) = 1034 / 10"
  by (simp add: py_round1_def Let_def)

lemma inst_speed_sixteenth: "inst_speed_kmh (0, 16) (0, 15) 1 30 = 108"
  by (simp add: inst_speed_kmh_def norm2_def)

lemma accept_sixteenth:
  "accept_sample track_fifteen 108 1 = track_sixteen\<lparr>last_frame := 15, last_pos := (0, 15)\<rparr>"
  by (simp add: accept_sample_def avg16 round16)

lemma call_sixteenth:
  "estimate_speed gp_id [1 \<mapsto> track_fifteen] 1 (0, 16) 16 30
     = Inr (1034 / 10, [1 \<mapsto> track_sixteen])"
  by (simp add: estimate_speed_def gp_id_def inst_speed_sixteenth accept_sixteenth)

lemma window_mean_sixteen:
  "window_mean_spec [100, 120, 90, 110, 957 / 10, 105, 115, 85, 125, 80, 130, 101, 99, 102, 98, 108]
     = 10337 / 100"
  using avg16 by (simp add: avg_speed_window_mean)

subsection \<open>The invariant of the estimator state\<close>

lemma sum_list_gt5:
  "\<forall>x\<in>set xs. (5::real) < x \<Longrightarrow> xs \<noteq> [] \<Longrightarrow> 5 * real (length xs) < sum_list xs"
proof (induction xs)
  case Nil
  then show ?case by simp
next
  case (Cons a xs)
  show ?case
  proof (cases "xs = []")
    case True
    with Cons.prems show ?thesis by simp
  next
    case False
    with Cons have "5 * real (length xs) < sum_list xs" by simp
    moreover have "5 < a" using Cons.prems by simp
    ultimately show ?thesis by (simp add: algebra_simps)
  qed
qed

lemma py_slice_subset: "set (py_slice a b xs) \<subseteq> set xs"
  unfolding py_slice_def Let_def
  by (meson set_take_subset set_drop_subset subset_trans)

lemma avg_speed_gt5:
  assumes "h \<noteq> []" and "\<forall>x\<in>set h. 5 < x"
  shows "5 < avg_speed h"
proof (cases "15 < length h")
  case True
  let ?s = "sort h"
  let ?w = "py_slice (int (length ?s) div 2 - 5) (int (length ?s) div 2 + 5) ?s"
  have len: "15 < length ?s" using True by simp
  have "length ?w = 10"
    unfolding py_slice_window[OF len] using True by simp
  moreover have "\<forall>x\<in>set ?w. 5 < x"
    using py_slice_subset[of _ _ ?s] assms(2) by auto
  ultimately have "5 * real 10 < sum_list ?w"
    using sum_list_gt5[of ?w] by fastforce
  then show ?thesis using True by (simp add: avg_speed_def Let_def)
next
  case False
  have "sort h \<noteq> []" using assms(1) by (metis length_sort length_0_conv)
  then have "5 * real (length (sort h)) < sum_list (sort h)"
    using assms(2) by (intro sum_list_gt5) auto
  moreover have "0 < real (length h)" using assms(1) by simp
  ultimately show ?thesis using False
    by (simp add: avg_speed_def Let_def pos_less_divide_eq)
qed

lemma py_round1_ge5: assumes "5 \<le> x" shows "5 \<le> py_round1 x"
proof -
  have "(50::int) \<le> \<lfloor>x * 10\<rfloor>" using assms by (simp add: le_floor_iff)
  then have "(50::real) \<le> of_int \<lfloor>x * 10\<rfloor>" by linarith
  then show ?thesis by (simp add: py_round1_def Let_def)
qed

lemma accept_sample_inv:
  assumes "track_inv d" and "5 < inst"
  shows "track_inv (accept_sample d inst fe)"
proof -
  let ?h1 = "speed_history d @ [inst]"
  let ?h2 = "if length ?h1 > 25 then tl ?h1 else ?h1"
  have all1: "\<forall>x\<in>set ?h1. 5 < x" using assms by (simp add: track_inv_def)
  have ne: "?h2 \<noteq> []" by (cases "speed_history d") auto
  have "set ?h2 \<subseteq> set ?h1" by (cases "speed_history d") auto
  with all1 have all2: "\<forall>x\<in>set ?h2. 5 < x" by blast
  from avg_speed_gt5[OF ne all2] have "5 \<le> py_round1 (avg_speed ?h2)"
    by (intro py_round1_ge5) simp
  with all2 show ?thesis
    by (simp add: track_inv_def accept_sample_def Let_def)
qed

lemma td_inv_upd: "td_inv td \<Longrightarrow> track_inv d \<Longrightarrow> td_inv (td(t \<mapsto> d))"
  by (simp add: td_inv_def)

lemma track_inv_fresh:
  "track_inv \<lparr>last_frame = f, last_pos = p, speed_history = [],
              current_speed = 0, stable_frames = 0, hits = 0\<rparr>"
  by (simp add: track_inv_def)

lemma track_inv_moved:
  "track_inv d \<Longrightarrow> track_inv (d\<lparr>last_pos := p, last_frame := f\<rparr>)"
  by (simp add: track_inv_def)

lemma estimate_speed_inv:
  assumes "td_inv td" and "estimate_speed gp td tid pos f fps = Inr (v, td')"
  shows "td_inv td'"
proof (cases "td tid")
  case None
  with assms(2) have "td' = td(tid \<mapsto> \<lparr>last_frame = f, last_pos = gp pos, speed_history = [],
              current_speed = 0, stable_frames = 0, hits = 0\<rparr>)"
    by (simp add: estimate_speed_def)
  then show ?thesis using td_inv_upd[OF assms(1) track_inv_fresh] by simp
next
  case (Some d)
  then have d: "track_inv d" using assms(1) by (simp add: td_inv_def)
  show ?thesis
  proof (cases "f \<le> last_frame d")
    case True
    with assms Some show ?thesis by (simp add: estimate_speed_def)
  next
    case False
    then have lt: "last_frame d < f" by simp
    show ?thesis
    proof (cases "fps = 0")
      case True
      with assms Some lt show ?thesis by (simp add: estimate_speed_def)
    next
      case nz: False
      let ?inst = "inst_speed_kmh (gp pos) (last_pos d) (f - last_frame d) fps"
      let ?d1 = "if 5 < ?inst \<and> ?inst < 220 then accept_sample d ?inst (f - last_frame d) else d"
      have "track_inv ?d1" using d accept_sample_inv by simp
      then have "track_inv (?d1\<lparr>last_pos := gp pos, last_frame := f\<rparr>)"
        by (rule track_inv_moved)
      moreover have "td' = td(tid \<mapsto> ?d1\<lparr>last_pos := gp pos, last_frame := f\<rparr>)"
        using assms(2) unfolding estimate_speed_step[where td=td and data=d, OF Some lt nz] Let_def
        by simp
      ultimately show ?thesis using td_inv_upd[OF assms(1)] by simp
    qed
  qed
qed

lemma run_calls_inv:
  "td_inv td \<Longrightarrow> run_calls gp td cs = Inr (vs, td') \<Longrightarrow> td_inv td'"
proof (induction cs arbitrary: td vs)
  case Nil
  then show ?case by simp
next
  case (Cons c cs)
  obtain tid pos f fps where c: "c = (tid, pos, f, fps)" by (cases c) auto
  from Cons.prems(2) obtain v td1 vs1 where
    e: "estimate_speed gp td tid pos f fps = Inr (v, td1)" and
    r: "run_calls gp td1 cs = Inr (vs1, td')"
    by (auto simp add: c split: sum.splits)
  from estimate_speed_inv[OF Cons.prems(1) e] Cons.IH r show ?case by blast
qed

lemma estimate_speed_mono:
  assumes "estimate_speed gp td tid pos f fps = Inr (v, td')" and "td t = Some d"
  shows "\<exists>d'. td' t = Some d' \<and> stable_frames d \<le> stable_frames d' \<and> hits d \<le> hits d'"
proof (cases "td tid")
  case None
  with assms have "t \<noteq> tid" by auto
  with assms None show ?thesis by (auto simp add: estimate_speed_def)
next
  case (Some d0)
  show ?thesis
  proof (cases "f \<le> last_frame d0")
    case True
    with assms Some show ?thesis by (simp add: estimate_speed_def)
  next
    case False
    then have lt: "last_frame d0 < f" by simp
    show ?thesis
    proof (cases "fps = 0")
      case True
      with assms Some lt show ?thesis by (simp add: estimate_speed_def)
    next
      case nz: False
      from assms lt show ?thesis
        unfolding estimate_speed_step[where td=td and data=d0, OF Some lt nz] Let_def
        using Some by (cases "t = tid") (auto simp add: accept_sample_def Let_def)
    qed
  qed
qed

lemma estimate_speed_open:
  assumes "td_inv td" and "td tid = Some d" and "15 \<le> stable_frames d" and "8 \<le> hits d"
    and "estimate_speed gp td tid pos f fps = Inr (v, td')"
  shows "v \<noteq> 0"
proof -
  from estimate_speed_inv[OF assms(1,5)] have inv': "td_inv td'" .
  from estimate_speed_mono[OF assms(5,2)] obtain d' where
    d': "td' tid = Some d'" "stable_frames d \<le> stable_frames d'" "hits d \<le> hits d'" by blast
  then have open': "\<not> (stable_frames d' < 15 \<or> hits d' < 8)" using assms(3,4) by simp
  have "5 \<le> current_speed d'" using inv' d' assms(4) by (simp add: td_inv_def track_inv_def)
  have d5: "5 \<le> current_speed d" using assms(1,2,4) by (simp add: td_inv_def track_inv_def)
  show ?thesis
  proof (cases "f \<le> last_frame d")
    case True
    with assms(2,5) d5 show ?thesis by (auto simp add: estimate_speed_def)
  next
    case False
    then have lt: "last_frame d < f" by simp
    show ?thesis
    proof (cases "fps = 0")
      case True
      with assms lt show ?thesis by (simp add: estimate_speed_def)
    next
      case nz: False
      from assms(5) d' open' \<open>5 \<le> current_speed d'\<close> show ?thesis
        unfolding estimate_speed_step[where td=td and data=d, OF assms(2) lt nz] Let_def
        by (auto split: if_splits)
    qed
  qed
qed

lemma run_calls_open:
  assumes "td_inv td" and "td tid = Some d" and "15 \<le> stable_frames d" and "8 \<le> hits d"
    and "run_calls gp td cs = Inr (vs, td')"
  shows "(\<exists>d'. td' tid = Some d' \<and> stable_frames d \<le> stable_frames d' \<and> hits d \<le> hits d')
         \<and> (\<forall>(c, v)\<in>set (zip cs vs). fst c = tid \<longrightarrow> v \<noteq> 0)"
  using assms
proof (induction cs arbitrary: td d vs)
  case Nil
  then show ?case by simp
next
  case (Cons c cs)
  obtain t pos f fps where c: "c = (t, pos, f, fps)" by (cases c) auto
  from Cons.prems(5) obtain v td1 vs1 where
    e: "estimate_speed gp td t pos f fps = Inr (v, td1)" and
    r: "run_calls gp td1 cs = Inr (vs1, td')" and vs: "vs = v # vs1"
    by (auto simp add: c split: sum.splits)
  from estimate_speed_mono[OF e Cons.prems(2)] obtain d1 where
    d1: "td1 tid = Some d1" "stable_frames d \<le> stable_frames d1" "hits d \<le> hits d1" by blast
  have inv1: "td_inv td1" by (rule estimate_speed_inv[OF Cons.prems(1) e])
  have o1: "15 \<le> stable_frames d1" "8 \<le> hits d1" using d1 Cons.prems(3,4) by auto
  from Cons.IH[OF inv1 d1(1) o1 r] obtain d' where
    d': "td' tid = Some d'" "stable_frames d1 \<le> stable_frames d'" "hits d1 \<le> hits d'"
    and rest: "\<forall>(c, v)\<in>set (zip cs vs1). fst c = tid \<longrightarrow> v \<noteq> 0" by blast
  have hd: "t = tid \<longrightarrow> v \<noteq> 0"
  proof
    assume "t = tid"
    with e have "estimate_speed gp td tid pos f fps = Inr (v, td1)" by simp
    from estimate_speed_open[OF Cons.prems(1-4) this] show "v \<noteq> 0" .
  qed
  from d' d1 rest hd show ?case by (auto simp add: vs c)
qed

lemma run_calls_mono:
  assumes "run_calls gp td cs = Inr (vs, td')" and "td t = Some d"
  shows "\<exists>d'. td' t = Some d' \<and> stable_frames d \<le> stable_frames d' \<and> hits d \<le> hits d'"
  using assms
proof (induction cs arbitrary: td d vs)
  case Nil
  then show ?case by simp
next
  case (Cons c cs)
  obtain tid pos f fps where c: "c = (tid, pos, f, fps)" by (cases c) auto
  from Cons.prems(1) obtain v td1 vs1 where
    e: "estimate_speed gp td tid pos f fps = Inr (v, td1)" and
    r: "run_calls gp td1 cs = Inr (vs1, td')"
    by (auto simp add: c split: sum.splits)
  from estimate_speed_mono[OF e Cons.prems(2)] obtain d1 where
    d1: "td1 t = Some d1" "stable_frames d \<le> stable_frames d1" "hits d \<le> hits d1" by blast
  from Cons.IH[OF r d1(1)] d1 show ?case by fastforce
qed

subsection \<open>A run that opens the gate\<close>

lemma inst_speed_cruise:
  "0 < n \<Longrightarrow> inst_speed_kmh (a, y + real_of_int n) (a, y) n 30 = 108"
  by (simp add: inst_speed_kmh_def norm2_def)

lemma avg_speed_replicate:
  assumes "0 < n" and "n \<le> 15"
  shows "avg_speed (replicate n 108) = 108"
proof -
  have "sort (replicate n (108::real)) = replicate n 108"
    by (simp add: sorted_sort_id sorted_replicate)
  then show ?thesis using assms
    by (simp add: avg_speed_def Let_def sum_list_replicate)
qed

lemma accept_cruising:
  assumes "0 \<le> k" and "k < 15"
  shows "accept_sample (cruising k) 108 1
          = (cruising (k + 1))\<lparr>last_frame := 7 + k, last_pos := (0, 7 + real_of_int k)\<rparr>"
proof -
  have n: "nat (k + 1) = Suc (nat k)" using assms by simp
  have h: "replicate (nat k) (108::real) @ [108] = replicate (Suc (nat k)) 108"
    by (simp add: replicate_append_same)
  have a: "avg_speed (replicate (Suc (nat k)) 108) = 108"
    using assms by (intro avg_speed_replicate) auto
  have l: "\<not> 24 < nat k" using assms by simp
  show ?thesis
    by (simp add: accept_sample_def cruising_def Let_def h a l n py_round1_108 del: replicate_Suc)
qed

lemma call_cruising:
  assumes "0 \<le> k" and "k < 15"
  shows "estimate_speed gp_id [1 \<mapsto> cruising k] 1 (0, 8 + k) (8 + k) 30
          = Inr (if 7 \<le> k then 108 else 0, [1 \<mapsto> cruising (k + 1)])"
proof -
  have i: "inst_speed_kmh (0, 8 + real_of_int k) (0, 7 + real_of_int k) 1 30 = 108"
    using inst_speed_cruise[of 1 0 "7 + real_of_int k"] by (simp add: add.commute)
  have fe: "8 + k - last_frame (cruising k) = 1" by (simp add: cruising_def)
  have lp: "last_pos (cruising k) = (0, 7 + real_of_int k)" by (simp add: cruising_def)
  have lt: "last_frame (cruising k) < 8 + k" by (simp add: cruising_def)
  show ?thesis
    unfolding estimate_speed_step[where td="[1 \<mapsto> cruising k]" and data="cruising k", OF _ lt, of 1 30 gp_id "(0, 8 + k)", simplified]
    by (simp add: Let_def fe lp gp_id_def i accept_cruising[OF assms]) (auto simp add: cruising_def)
qed

lemma call_cruise_start:
  "estimate_speed gp_id [1 \<mapsto> track_new] 1 (0, 8) 8 30 = Inr (0, [1 \<mapsto> cruising 1])"
  using inst_speed_cruise[of 8 0 0]
  by (simp add: estimate_speed_def gp_id_def accept_sample_def avg_speed_one py_round1_108 cruising_def)

lemma call_cruising_same_frame:
  "estimate_speed gp_id [1 \<mapsto> cruising 8] 1 (0, 15) 15 30 = Inr (108, [1 \<mapsto> cruising 8])"
  by (simp add: estimate_speed_def cruising_def)

lemma run_cruise:
  "run_calls gp_id Map.empty
     [(1, (0, 0), 0, 30), (1, (0, 8), 8, 30), (1, (0, 9), 9, 30), (1, (0, 10), 10, 30),
      (1, (0, 11), 11, 30), (1, (0, 12), 12, 30), (1, (0, 13), 13, 30), (1, (0, 14), 14, 30),
      (1, (0, 15), 15, 30)]
    = Inr ([0, 0, 0, 0, 0, 0, 0, 0, 108], [1 \<mapsto> cruising 8])"
  using call_cruising[of 1] call_cruising[of 2] call_cruising[of 3] call_cruising[of 4]
    call_cruising[of 5] call_cruising[of 6] call_cruising[of 7]
  by (simp add: call_first call_cruise_start)

lemma run_cruise_on:
  "run_calls gp_id [1 \<mapsto> cruising 8] [(1, (0, 15), 15, 30), (1, (0, 16), 16, 30)]
    = Inr ([108, 108], [1 \<mapsto> cruising 9])"
  using call_cruising[of 8] by (simp add: call_cruising_same_frame)

subsection \<open>The claims on the speed estimator\<close>

text \<open>
  C6.  For an already-seen track id, a call whose frame index is not greater than the
  stored \<open>last_frame\<close> returns the existing \<open>current_speed\<close> and leaves the whole
  estimator state, and so every field of the track, unchanged.
\<close>

theorem estimate_speed_non_monotonic_frame:
  assumes "td tid = Some data" and "current_frame \<le> last_frame data"
  shows "estimate_speed gp td tid current_pos current_frame fps
           = Inr (current_speed data, td)"
  using assms by (simp add: estimate_speed_def)

theorem estimate_speed_non_monotonic_frame_witness:
  "estimate_speed gp_id [1 \<mapsto> track_one_hit] 1 (5, 7) 0 30 = Inr (108, [1 \<mapsto> track_one_hit])"
  using estimate_speed_non_monotonic_frame [of "[1 \<mapsto> track_one_hit]" 1 track_one_hit 0 gp_id "(5, 7)" 30]
  by simp

text \<open>
  C4.  On a call for a known track with a positive number of elapsed frames (and a frame
  rate other than 0, so that an instantaneous speed is computed), an instantaneous speed
  outside the open interval (5, 220) leaves \<open>speed_history\<close>, \<open>hits\<close>, \<open>stable_frames\<close>
  and \<open>current_speed\<close> as they were, while \<open>last_pos\<close> and \<open>last_frame\<close> are set to
  the new sample.
\<close>

theorem estimate_speed_rejected_sample:
  assumes "td tid = Some data" and "last_frame data < current_frame" and "fps \<noteq> 0"
    and "inst = inst_speed_kmh (gp current_pos) (last_pos data) (current_frame - last_frame data) fps"
    and "inst \<le> 5 \<or> 220 \<le> inst"
  shows "estimate_speed gp td tid current_pos current_frame fps
           = Inr (if stable_frames data < 15 \<or> hits data < 8 then 0 else current_speed data,
                  td(tid \<mapsto> data\<lparr>last_pos := gp current_pos, last_frame := current_frame\<rparr>))"
  using assms(4,5) by (auto simp add: estimate_speed_step[where td=td and data=data, OF assms(1-3)] Let_def)

theorem estimate_speed_rejected_sample_witness:
  "estimate_speed gp_id [1 \<mapsto> track_new] 1 (0, 0) 1 30
     = Inr (0, [1 \<mapsto> track_new\<lparr>last_pos := (0, 0), last_frame := 1\<rparr>])"
  using estimate_speed_rejected_sample
          [of "[1 \<mapsto> track_new]" 1 track_new 1 30 0 gp_id "(0, 0)"]
  by (simp add: gp_id_def inst_speed_standing)

text \<open>
  C5.  After an accepted sample the stored \<open>speed_history\<close> is the old one with the
  sample appended and, beyond 25 entries, the oldest entry dropped; and the stored
  \<open>current_speed\<close> is the minimum of 160 and \<open>k / 10\<close>, where \<open>k / 10\<close> is the multiple of
  one tenth nearest to the specification's mean of that history (of two equally near
  ones the one with even \<open>k\<close>).  So \<open>current_speed\<close> never exceeds 160.
\<close>

theorem estimate_speed_accepted_smoothing:
  assumes "td tid = Some data" and "last_frame data < current_frame" and "fps \<noteq> 0"
    and "inst = inst_speed_kmh (gp current_pos) (last_pos data) (current_frame - last_frame data) fps"
    and "5 < inst" and "inst < 220"
  shows "\<exists>v data' k. estimate_speed gp td tid current_pos current_frame fps
                      = Inr (v, td(tid \<mapsto> data'))
           \<and> speed_history data' = (if length (speed_history data) < 25
                 then speed_history data @ [inst] else tl (speed_history data @ [inst]))
           \<and> \<bar>real_of_int k / 10 - window_mean_spec (speed_history data')\<bar> \<le> 1 / 20
           \<and> (\<bar>real_of_int k / 10 - window_mean_spec (speed_history data')\<bar> = 1 / 20 \<longrightarrow> even k)
           \<and> current_speed data' = min (real_of_int k / 10) 160
           \<and> current_speed data' \<le> 160"
proof -
  let ?fe = "current_frame - last_frame data"
  let ?d = "(accept_sample data inst ?fe)\<lparr>last_pos := gp current_pos, last_frame := current_frame\<rparr>"
  let ?v = "if stable_frames ?d < 15 \<or> hits ?d < 8 then 0 else current_speed ?d"
  have e: "estimate_speed gp td tid current_pos current_frame fps = Inr (?v, td(tid \<mapsto> ?d))"
    using assms(4-6)
    by (simp add: estimate_speed_step[where td=td and data=data, OF assms(1-3)] Let_def)
  have h: "speed_history ?d = (if length (speed_history data) < 25
        then speed_history data @ [inst] else tl (speed_history data @ [inst]))"
    by (simp add: accept_sample_def Let_def)
  have c: "current_speed ?d = min (py_round1 (window_mean_spec (speed_history ?d))) 160"
    by (simp add: accept_sample_def Let_def avg_speed_window_mean)
  from py_round1_nearest[of "window_mean_spec (speed_history ?d)"] obtain k :: int where
    k: "py_round1 (window_mean_spec (speed_history ?d)) = real_of_int k / 10"
       "\<bar>real_of_int k / 10 - window_mean_spec (speed_history ?d)\<bar> \<le> 1 / 20"
       "\<bar>real_of_int k / 10 - window_mean_spec (speed_history ?d)\<bar> = 1 / 20 \<longrightarrow> even k"
    by blast
  have c': "current_speed ?d = min (real_of_int k / 10) 160" using c k(1) by simp
  then have le: "current_speed ?d \<le> 160" by simp
  from e h k(2,3) c' le show ?thesis by blast
qed

theorem estimate_speed_accepted_smoothing_witness:
  "estimate_speed gp_id [1 \<mapsto> track_fifteen] 1 (0, 16) 16 30
     = Inr (1034 / 10, [1 \<mapsto> track_sixteen])
   \<and> window_mean_spec (speed_history track_sixteen) = 10337 / 100
   \<and> current_speed track_sixteen = 1034 / 10
   \<and> (\<exists>v data' k. estimate_speed gp_id [1 \<mapsto> track_fifteen] 1 (0, 16) 16 30
                      = Inr (v, [1 \<mapsto> track_fifteen, 1 \<mapsto> data'])
           \<and> speed_history data' = speed_history track_sixteen
           \<and> \<bar>real_of_int k / 10 - window_mean_spec (speed_history data')\<bar> \<le> 1 / 20
           \<and> current_speed data' = min (real_of_int k / 10) 160
           \<and> current_speed data' \<le> 160)"
proof -
  have "\<exists>v data' k. estimate_speed gp_id [1 \<mapsto> track_fifteen] 1 (0, 16) 16 30
                      = Inr (v, [1 \<mapsto> track_fifteen, 1 \<mapsto> data'])
           \<and> speed_history data' = speed_history track_sixteen
           \<and> \<bar>real_of_int k / 10 - window_mean_spec (speed_history data')\<bar> \<le> 1 / 20
           \<and> (\<bar>real_of_int k / 10 - window_mean_spec (speed_history data')\<bar> = 1 / 20 \<longrightarrow> even k)
           \<and> current_speed data' = min (real_of_int k / 10) 160
           \<and> current_speed data' \<le> 160"
    using estimate_speed_accepted_smoothing
            [of "[1 \<mapsto> track_fifteen]" 1 track_fifteen 16 30 108 gp_id "(0, 16)"]
    by (simp add: gp_id_def inst_speed_sixteenth)
  then have "\<exists>v data' k. estimate_speed gp_id [1 \<mapsto> track_fifteen] 1 (0, 16) 16 30
                      = Inr (v, [1 \<mapsto> track_fifteen, 1 \<mapsto> data'])
           \<and> speed_history data' = speed_history track_sixteen
           \<and> \<bar>real_of_int k / 10 - window_mean_spec (speed_history data')\<bar> \<le> 1 / 20
           \<and> current_speed data' = min (real_of_int k / 10) 160
           \<and> current_speed data' \<le> 160"
    by blast
  with call_sixteenth window_mean_sixteen show ?thesis by simp
qed

text \<open>
  C3 (as amended).  On every call that creates the track or that has a positive number of
  elapsed frames, the returned speed is 0 unless, after the call, \<open>stable_frames\<close> is at
  least 15 and \<open>hits\<close> is at least 8.  The claim as stated, for every call, fails: a call
  with no elapsed frame returns the stored \<open>current_speed\<close> whatever the two counters are.
\<close>

theorem estimate_speed_gate:
  assumes "estimate_speed gp td tid current_pos current_frame fps = Inr (v, td')"
    and "case td tid of None \<Rightarrow> True | Some data \<Rightarrow> last_frame data < current_frame"
    and "td' tid = Some data'"
    and "stable_frames data' < 15 \<or> hits data' < 8"
  shows "v = 0"
proof (cases "td tid")
  case None
  with assms(1) show ?thesis by (auto simp add: estimate_speed_def)
next
  case (Some data)
  with assms(2) have lt: "last_frame data < current_frame" by simp
  show ?thesis
  proof (cases "fps = 0")
    case True
    with assms(1) Some lt show ?thesis by (simp add: estimate_speed_def)
  next
    case False
    from assms(1,3,4) show ?thesis
      unfolding estimate_speed_step[where td=td and data=data, OF Some lt False] Let_def
      by (auto split: if_splits)
  qed
qed

theorem estimate_speed_gate_witness:
  "estimate_speed gp_id [1 \<mapsto> track_new] 1 (0, 1) 1 30 = Inr (0, [1 \<mapsto> track_one_hit])
   \<and> hits track_one_hit < 8 \<and> current_speed track_one_hit = 108"
  using estimate_speed_gate
          [of gp_id "[1 \<mapsto> track_new]" 1 "(0, 1)" 1 30 0 "[1 \<mapsto> track_one_hit]" track_one_hit]
  by (simp add: call_second)

theorem estimate_speed_gate_counterexample:
  "run_calls gp_id Map.empty [(1, (0, 0), 0, 30), (1, (0, 1), 1, 30), (1, (0, 1), 1, 30)]
     = Inr ([0, 0, 108], [1 \<mapsto> track_one_hit])
   \<and> stable_frames track_one_hit < 15 \<and> hits track_one_hit < 8"
  by (simp add: call_first call_second call_same_frame)

text \<open>
  C10 (as amended).  On every estimator state reached from the empty one, \<open>stable_frames\<close>
  and \<open>hits\<close> of a track never decrease over any further sequence of calls; and once both
  have reached their thresholds (15 and 8), they stay there and every later call for that
  track id returns a nonzero speed.  The claim as stated starts from the first nonzero
  return instead, and fails: a call with no elapsed frame returns the stored speed while
  the gate is still closed, and the next call returns 0 again.
\<close>

theorem gate_never_closes:
  assumes "run_calls gp Map.empty cs1 = Inr (vs1, td1)"
    and "td1 tid = Some d1"
    and "run_calls gp td1 cs2 = Inr (vs2, td2)"
  shows "\<exists>d2. td2 tid = Some d2 \<and> stable_frames d1 \<le> stable_frames d2 \<and> hits d1 \<le> hits d2
           \<and> (15 \<le> stable_frames d1 \<and> 8 \<le> hits d1
                \<longrightarrow> 15 \<le> stable_frames d2 \<and> 8 \<le> hits d2
                    \<and> (\<forall>(c, v)\<in>set (zip cs2 vs2). fst c = tid \<longrightarrow> v \<noteq> 0))"
proof -
  have "td_inv Map.empty" by (simp add: td_inv_def)
  from run_calls_inv[OF this assms(1)] have inv: "td_inv td1" .
  from run_calls_mono[OF assms(3,2)] obtain d2 where
    d2: "td2 tid = Some d2" "stable_frames d1 \<le> stable_frames d2" "hits d1 \<le> hits d2" by blast
  show ?thesis
  proof (cases "15 \<le> stable_frames d1 \<and> 8 \<le> hits d1")
    case True
    with run_calls_open[OF inv assms(2) _ _ assms(3)] d2 show ?thesis by auto
  next
    case False
    with d2 show ?thesis by auto
  qed
qed

theorem gate_never_closes_witness:
  "run_calls gp_id Map.empty
     [(1, (0, 0), 0, 30), (1, (0, 8), 8, 30), (1, (0, 9), 9, 30), (1, (0, 10), 10, 30),
      (1, (0, 11), 11, 30), (1, (0, 12), 12, 30), (1, (0, 13), 13, 30), (1, (0, 14), 14, 30),
      (1, (0, 15), 15, 30)]
    = Inr ([0, 0, 0, 0, 0, 0, 0, 0, 108], [1 \<mapsto> cruising 8])
   \<and> stable_frames (cruising 8) = 15 \<and> hits (cruising 8) = 8
   \<and> run_calls gp_id [1 \<mapsto> cruising 8] [(1, (0, 15), 15, 30), (1, (0, 16), 16, 30)]
        = Inr ([108, 108], [1 \<mapsto> cruising 9])
   \<and> stable_frames (cruising 9) = 16 \<and> hits (cruising 9) = 9"
  using gate_never_closes[OF run_cruise _ run_cruise_on, of 1 "cruising 8"] run_cruise run_cruise_on
  by (simp add: cruising_def)

theorem gate_never_closes_counterexample:
  "run_calls gp_id Map.empty
     [(1, (0, 0), 0, 30), (1, (0, 1), 1, 30), (1, (0, 1), 1, 30), (1, (0, 2), 2, 30)]
    = Inr ([0, 0, 108, 0], [1 \<mapsto> track_two_hits])"
  by (simp add: call_first call_second call_same_frame call_third)

subsection \<open>Helper lemmas of the plate reader and the processor\<close>

lemmas alpr_eval =
  detect_and_read_def cached_answer_def fallback_ocr_def py_slice_from_def py_slice_def
  py_bound_def img_size_def crop_def clean_plate_text_def upper_char_def is_plate_char_def

lemma clean_plate_text_example: "clean_plate_text ''a-b 1234!'' = ''AB1234''"
  by (simp add: clean_plate_text_def upper_char_def is_plate_char_def)

lemma resolved_cache_entry_is_returned:
  assumes "plate_cache self tid = Some data" and "cache_text data \<noteq> []"
    and "cache_text data \<noteq> ''Unknown''"
  shows "detect_and_read readtext plate_model self vehicle_frame tid now
           = Inr (Some (cache_text data), self)"
  using assms by (simp add: detect_and_read_def cached_answer_def)

lemma read_box_plate_resolved:
  assumes "read_box_plate readtext plate_model reader frame b tid now = Inr (Some t, reader')"
  shows "t \<noteq> [] \<and> t \<noteq> ''Scanning...''"
proof -
  obtain x1 y1 x2 y2 where b: "b = (x1, y1, x2, y2)" by (cases b) auto
  from assms show ?thesis
    unfolding read_box_plate_def b
    by (auto simp add: Let_def split: if_splits sum.splits)
qed

lemma process_box_plate:
  assumes "process_box gp readtext plate_model names draw frame_number fps annotate frame self tb
             = Inr (d, frame', self')"
    and "license_plate d = Some t"
  shows "t \<noteq> [] \<and> t \<noteq> ''Scanning...''"
proof -
  obtain x1 y1 x2 y2 tid conf cls_id now where tb: "tb = ((x1, y1, x2, y2), tid, conf, cls_id, now)"
    by (cases tb) auto
  from assms obtain reader' where
    "read_box_plate readtext plate_model (alpr_reader self) frame (x1, y1, x2, y2) tid now
       = Inr (Some t, reader')"
    unfolding process_box_def tb
    by (auto split: sum.splits option.splits)
  then show ?thesis by (rule read_box_plate_resolved)
qed

lemma process_boxes_plate:
  assumes "process_boxes gp readtext plate_model names draw frame_number fps annotate frame self tbs
             = Inr (ds, frame', self')"
    and "d \<in> set ds" and "license_plate d = Some t"
  shows "t \<noteq> [] \<and> t \<noteq> ''Scanning...''"
  using assms
proof (induction tbs arbitrary: frame self ds)
  case Nil
  then show ?case by simp
next
  case (Cons tb tbs)
  from Cons.prems(1) obtain d1 frame1 self1 ds1 where
    b: "process_box gp readtext plate_model names draw frame_number fps annotate frame self tb
          = Inr (d1, frame1, self1)" and
    r: "process_boxes gp readtext plate_model names draw frame_number fps annotate frame1 self1 tbs
          = Inr (ds1, frame', self')" and
    ds: "ds = d1 # ds1"
    by (auto split: sum.splits)
  from Cons.prems(2) ds consider "d = d1" | "d \<in> set ds1" by auto
  then show ?case
  proof cases
    case 1
    with b Cons.prems(3) show ?thesis using process_box_plate by blast
  next
    case 2
    from Cons.IH[OF r 2 Cons.prems(3)] show ?thesis .
  qed
qed

lemma process_boxes_length:
  "process_boxes gp readtext plate_model names draw frame_number fps annotate frame self tbs
     = Inr (ds, frame', self') \<Longrightarrow> length ds = length tbs"
proof (induction tbs arbitrary: frame self ds)
  case Nil
  then show ?case by simp
next
  case (Cons tb tbs)
  from Cons.prems obtain d1 frame1 self1 ds1 where
    r: "process_boxes gp readtext plate_model names draw frame_number fps annotate frame1 self1 tbs
          = Inr (ds1, frame', self')" and
    ds: "ds = d1 # ds1"
    by (auto split: sum.splits)
  from Cons.IH[OF r] ds show ?case by simp
qed

lemma process_boxes_append:
  "process_boxes gp readtext plate_model names draw frame_number fps annotate frame self (xs @ ys)
     = (case process_boxes gp readtext plate_model names draw frame_number fps annotate frame self xs of
          Inl e \<Rightarrow> Inl e
        | Inr (ds1, frame1, self1) \<Rightarrow>
            (case process_boxes gp readtext plate_model names draw frame_number fps annotate
                    frame1 self1 ys of
               Inl e \<Rightarrow> Inl e
             | Inr (ds2, frame2, self2) \<Rightarrow> Inr (ds1 @ ds2, frame2, self2)))"
proof (induction xs arbitrary: frame self)
  case Nil
  then show ?case by (simp split: sum.splits prod.splits)
next
  case (Cons x xs)
  show ?case
    by (simp add: Cons.IH split: sum.splits prod.splits)
qed

lemma process_box_record:
  assumes "process_box gp readtext plate_model names draw frame_number fps annotate frame self
             ((x1, y1, x2, y2), tid, conf, cls_id, now) = Inr (d, frame', self')"
  shows "track_id d = tid
     \<and> (case (if img_size (crop frame y1 y2 x1 x2) = 0 then None
               else Some (detect_and_read readtext plate_model (alpr_reader self)
                            (crop frame y1 y2 x1 x2) tid now)) of
          None \<Rightarrow> license_plate d = None
        | Some (Inl e) \<Rightarrow> False
        | Some (Inr (None, reader')) \<Rightarrow> license_plate d = None
        | Some (Inr (Some t, reader')) \<Rightarrow>
            license_plate d = (if t = [] \<or> t = ''Scanning...'' then None else Some t))"
  using assms
  unfolding process_box_def read_box_plate_def
  by (auto simp add: Let_def split: sum.splits option.splits if_splits prod.splits)

lemma first_box_read:
  "process_boxes gp_id reads_one_row (\<lambda>_. []) [2 \<mapsto> ''car''] (\<lambda>f b t p v. f) 0 30 False
       frame22 processor_new [((0, 0, 2, 1), 1, 9 / 10, 2, 100)]
     = Inr ([detection_read], frame22,
            \<lparr>speed_estimator = [1 \<mapsto> \<lparr>last_frame = 0, last_pos = (1, 1), speed_history = [],
                                      current_speed = 0, stable_frames = 0, hits = 0\<rparr>],
             alpr_reader = reader_one_plate\<rparr>)"
  by (simp add: process_box_def read_box_plate_def bottom_center_def
        estimate_speed_def gp_id_def alpr_eval)

lemma second_box_unresolved:
  "detect_and_read reads_one_row (\<lambda>_. []) reader_one_plate (crop frame22 0 2 0 2) 2 100
     = Inr (Some ''Scanning...'', reader_one_plate\<lparr>ocr_calls := 2, detector_calls := 2\<rparr>)"
  by (simp add: alpr_eval)

lemma two_box_frame:
  "process_frame_data gp_id reads_one_row (\<lambda>_. []) [2 \<mapsto> ''car''] (\<lambda>f b t p v. f) processor_new
       frame22 (Some [((0, 0, 2, 1), 1, 9 / 10, 2, 100), ((0, 0, 2, 2), 2, 1 / 2, 2, 100)])
       0 30 False
     = Inr (([detection_read, detection_unread], None),
            \<lparr>speed_estimator = [1 \<mapsto> \<lparr>last_frame = 0, last_pos = (1, 1), speed_history = [],
                                      current_speed = 0, stable_frames = 0, hits = 0\<rparr>,
                                2 \<mapsto> \<lparr>last_frame = 0, last_pos = (1, 2), speed_history = [],
                                      current_speed = 0, stable_frames = 0, hits = 0\<rparr>],
             alpr_reader = reader_one_plate\<lparr>ocr_calls := 2, detector_calls := 2\<rparr>\<rparr>)"
  by (simp add: process_frame_data_def process_box_def read_box_plate_def bottom_center_def
        estimate_speed_def gp_id_def alpr_eval)

lemma empty_box_crop: "img_size (crop frame22 0 2 0 0) = 0"
  by (simp add: alpr_eval)

lemma empty_box_speed:
  "estimate_speed gp_id (speed_estimator processor_new) 1 (bottom_center 0 0 2) 0 30
     = Inr (0, [1 \<mapsto> \<lparr>last_frame = 0, last_pos = (0, 2), speed_history = [],
                         current_speed = 0, stable_frames = 0, hits = 0\<rparr>])"
  by (simp add: estimate_speed_def gp_id_def bottom_center_def)

lemma other_box_processed:
  "process_boxes gp_id (\<lambda>_. [(''ab-1234'', 9 / 10)]) (\<lambda>_. []) [2 \<mapsto> ''car''] (\<lambda>f b t p v. f)
       0 30 False frame22
       \<lparr>speed_estimator = [1 \<mapsto> \<lparr>last_frame = 0, last_pos = (0, 2), speed_history = [],
                         current_speed = 0, stable_frames = 0, hits = 0\<rparr>],
        alpr_reader = reader_new\<rparr>
       [((0, 0, 2, 2), 2, 1 / 2, 2, 100)]
     = Inr ([\<lparr>track_id = 2, vehicle_type = ''car'', confidence = 1 / 2,
              box_coordinates = [0, 0, 2, 2], license_plate = Some ''AB1234'', speed = 0\<rparr>],
            frame22,
            \<lparr>speed_estimator = [1 \<mapsto> \<lparr>last_frame = 0, last_pos = (0, 2), speed_history = [],
                                      current_speed = 0, stable_frames = 0, hits = 0\<rparr>,
                                2 \<mapsto> \<lparr>last_frame = 0, last_pos = (1, 2), speed_history = [],
                                      current_speed = 0, stable_frames = 0, hits = 0\<rparr>],
             alpr_reader = reader_new\<lparr>plate_cache := [2 \<mapsto> \<lparr>cache_text = ''AB1234'',
                                                            last_attempt = 100\<rparr>],
                                      ocr_calls := 1, detector_calls := 1\<rparr>\<rparr>)"
  by (simp add: process_box_def read_box_plate_def bottom_center_def
        estimate_speed_def gp_id_def alpr_eval)

subsection \<open>The claims on the plate reader\<close>

text \<open>
  C1.  The claim does not hold of the code: the cache is written only when a text was
  read (line 97), so a failed attempt leaves no entry and no time stamp, and the throttle
  of line 60 never applies.  With the plate model and the engine available and nothing
  read, a call at time 100 and a call at time 101 for the same track both run the plate
  model and the engine.
\<close>

theorem failed_attempt_not_throttled:
  "detect_and_read (\<lambda>_. []) (\<lambda>_. []) reader_new frame22 1 100
     = Inr (Some ''Scanning...'', reader_new\<lparr>ocr_calls := 1, detector_calls := 1\<rparr>)
   \<and> detect_and_read (\<lambda>_. []) (\<lambda>_. []) (reader_new\<lparr>ocr_calls := 1, detector_calls := 1\<rparr>)
         frame22 1 101
     = Inr (Some ''Scanning...'', reader_new\<lparr>ocr_calls := 2, detector_calls := 2\<rparr>)"
  by (simp add: alpr_eval)

text \<open>
  C2.  The claim does not hold of the code when the plate model was not loaded: line 65
  returns the text of the fallback without writing the cache, so the next call for the
  track runs the engine again and may return another text.
\<close>

theorem resolved_plate_not_cached_without_model:
  "detect_and_read (\<lambda>img. if img = frame22 then [(''ab-1234'', 9 / 10)] else [(''xy-9876'', 9 / 10)])
       (\<lambda>_. []) (reader_new\<lparr>model_loaded := False\<rparr>) frame22 1 100
     = Inr (Some ''AB1234'', reader_new\<lparr>model_loaded := False, ocr_calls := 1\<rparr>)
   \<and> detect_and_read (\<lambda>img. if img = frame22 then [(''ab-1234'', 9 / 10)] else [(''xy-9876'', 9 / 10)])
       (\<lambda>_. []) (reader_new\<lparr>model_loaded := False, ocr_calls := 1\<rparr>) [[1, 1], [1, 1]] 1 101
     = Inr (Some ''XY9876'', reader_new\<lparr>model_loaded := False, ocr_calls := 2\<rparr>)"
  by (simp add: alpr_eval)

text \<open>
  C7.  The claim does not hold of the code: with \<open>self.reader\<close> being \<open>None\<close>, the plate
  model loaded and a box with a non-empty crop, line 82 raises AttributeError.
\<close>

theorem missing_engine_raises:
  "detect_and_read (\<lambda>_. []) (\<lambda>_. [[(0, 0, 1, 1)]]) (reader_new\<lparr>reader_ok := False\<rparr>)
       frame22 1 100
     = Inl AttributeError"
  by (simp add: alpr_eval)

subsection \<open>The claims on the processor\<close>

text \<open>
  C8 (as amended).  A tracked box whose crop is empty has its plate recognition skipped
  for that frame: the plate reader is left as it was and the record's plate is \<open>None\<close>.
  Its speed estimation is not skipped: \<open>estimate_speed\<close> runs, its new state is kept and
  its speed is in the emitted record.  The remaining boxes of the frame are processed
  from there as usual.
\<close>

theorem empty_crop_skips_plate_only:
  assumes "img_size (crop frame y1 y2 x1 x2) = 0"
    and "estimate_speed gp (speed_estimator self) tid (bottom_center x1 x2 y2) frame_number fps
           = Inr (v, td')"
    and "names cls_id = Some vt"
  shows "process_boxes gp readtext plate_model names draw frame_number fps annotate frame self
           (((x1, y1, x2, y2), tid, conf, cls_id, now) # tbs)
     = (case process_boxes gp readtext plate_model names draw frame_number fps annotate
               (if annotate then draw frame (x1, y1, x2, y2) tid None v else frame)
               \<lparr>speed_estimator = td', alpr_reader = alpr_reader self\<rparr> tbs of
          Inl e \<Rightarrow> Inl e
        | Inr (ds, frame2, self2) \<Rightarrow>
            Inr (\<lparr>track_id = tid, vehicle_type = vt, confidence = conf,
                  box_coordinates = [x1, y1, x2, y2], license_plate = None, speed = v\<rparr> # ds,
                 frame2, self2))"
  using assms by (simp add: process_box_def read_box_plate_def)

theorem empty_crop_skips_plate_only_witness:
  "process_boxes gp_id (\<lambda>_. [(''ab-1234'', 9 / 10)]) (\<lambda>_. []) [2 \<mapsto> ''car''] (\<lambda>f b t p v. f)
       0 30 False frame22 processor_new
       [((0, 0, 0, 2), 1, 9 / 10, 2, 100), ((0, 0, 2, 2), 2, 1 / 2, 2, 100)]
     = Inr ([\<lparr>track_id = 1, vehicle_type = ''car'', confidence = 9 / 10,
              box_coordinates = [0, 0, 0, 2], license_plate = None, speed = 0\<rparr>,
             \<lparr>track_id = 2, vehicle_type = ''car'', confidence = 1 / 2,
              box_coordinates = [0, 0, 2, 2], license_plate = Some ''AB1234'', speed = 0\<rparr>],
            frame22,
            \<lparr>speed_estimator = [1 \<mapsto> \<lparr>last_frame = 0, last_pos = (0, 2), speed_history = [],
                                      current_speed = 0, stable_frames = 0, hits = 0\<rparr>,
                                2 \<mapsto> \<lparr>last_frame = 0, last_pos = (1, 2), speed_history = [],
                                      current_speed = 0, stable_frames = 0, hits = 0\<rparr>],
             alpr_reader = reader_new\<lparr>plate_cache := [2 \<mapsto> \<lparr>cache_text = ''AB1234'',
                                                            last_attempt = 100\<rparr>],
                                      ocr_calls := 1, detector_calls := 1\<rparr>\<rparr>)"
proof -
  have names: "[2 \<mapsto> ''car''] (2::int) = Some ''car''" by simp
  show ?thesis
    unfolding empty_crop_skips_plate_only[where names="[2 \<mapsto> ''car'']" and cls_id=2,
        OF empty_box_crop empty_box_speed names]
    by (simp add: other_box_processed del: process_boxes.simps)
qed

theorem empty_crop_speed_not_skipped:
  "process_frame_data gp_id (\<lambda>_. []) (\<lambda>_. []) [2 \<mapsto> ''car''] (\<lambda>f b t p v. f) processor_new
       frame22 (Some [((0, 0, 0, 2), 1, 9 / 10, 2, 100)]) 0 30 False
     = Inr (([\<lparr>track_id = 1, vehicle_type = ''car'', confidence = 9 / 10,
               box_coordinates = [0, 0, 0, 2], license_plate = None, speed = 0\<rparr>], None),
            \<lparr>speed_estimator = [1 \<mapsto> \<lparr>last_frame = 0, last_pos = (0, 2), speed_history = [],
                                         current_speed = 0, stable_frames = 0, hits = 0\<rparr>],
             alpr_reader = reader_new\<rparr>)
   \<and> img_size (crop frame22 0 2 0 0) = 0"
  by (simp add: process_frame_data_def process_box_def read_box_plate_def bottom_center_def
        estimate_speed_def gp_id_def alpr_eval)

text \<open>
  C9.  \<open>process_frame_data\<close> emits one record per tracked box, in order.  The record of
  box \<open>i\<close> carries that box's track id, and its plate is fixed by what the plate reader
  answers for the box in the state that the boxes before it have left: the plate is
  \<open>None\<close> when the crop is empty (the reader is not asked), and when the reader answers
  \<open>None\<close>, the empty string or the sentinel \<open>Scanning...\<close>; otherwise it is the text
  the reader returned.  In particular the sentinel is the plate of no emitted record.
\<close>

theorem unresolved_plate_is_null:
  assumes "process_frame_data gp readtext plate_model names draw self frame tracked
             frame_number fps annotate = Inr ((detections, annotated), self')"
    and "tbs = (case tracked of None \<Rightarrow> [] | Some bs \<Rightarrow> bs)"
  shows "length detections = length tbs
     \<and> (\<forall>i < length tbs. \<forall>x1 y1 x2 y2 tid conf cls_id now.
          tbs ! i = ((x1, y1, x2, y2), tid, conf, cls_id, now) \<longrightarrow>
          (\<exists>ds frame_i self_i.
             process_boxes gp readtext plate_model names draw frame_number fps annotate frame self
               (take i tbs) = Inr (ds, frame_i, self_i)
           \<and> track_id (detections ! i) = tid
           \<and> license_plate (detections ! i) \<noteq> Some ''Scanning...''
           \<and> (case (if img_size (crop frame_i y1 y2 x1 x2) = 0 then None
                     else Some (detect_and_read readtext plate_model (alpr_reader self_i)
                                  (crop frame_i y1 y2 x1 x2) tid now)) of
                None \<Rightarrow> license_plate (detections ! i) = None
              | Some (Inl e) \<Rightarrow> False
              | Some (Inr (None, reader')) \<Rightarrow> license_plate (detections ! i) = None
              | Some (Inr (Some t, reader')) \<Rightarrow>
                  license_plate (detections ! i)
                    = (if t = [] \<or> t = ''Scanning...'' then None else Some t))))"
proof -
  from assms obtain frame' where
    run: "process_boxes gp readtext plate_model names draw frame_number fps annotate frame self tbs
            = Inr (detections, frame', self')"
    unfolding process_frame_data_def by (auto split: sum.splits)
  have len: "length detections = length tbs" by (rule process_boxes_length[OF run])
  have each: "\<exists>ds frame_i self_i.
             process_boxes gp readtext plate_model names draw frame_number fps annotate frame self
               (take i tbs) = Inr (ds, frame_i, self_i)
           \<and> track_id (detections ! i) = tid
           \<and> license_plate (detections ! i) \<noteq> Some ''Scanning...''
           \<and> (case (if img_size (crop frame_i y1 y2 x1 x2) = 0 then None
                     else Some (detect_and_read readtext plate_model (alpr_reader self_i)
                                  (crop frame_i y1 y2 x1 x2) tid now)) of
                None \<Rightarrow> license_plate (detections ! i) = None
              | Some (Inl e) \<Rightarrow> False
              | Some (Inr (None, reader')) \<Rightarrow> license_plate (detections ! i) = None
              | Some (Inr (Some t, reader')) \<Rightarrow>
                  license_plate (detections ! i)
                    = (if t = [] \<or> t = ''Scanning...'' then None else Some t))"
    if i: "i < length tbs" and tb: "tbs ! i = ((x1, y1, x2, y2), tid, conf, cls_id, now)"
    for i x1 y1 x2 y2 tid conf cls_id now
  proof -
    let ?tb = "((x1, y1, x2, y2), tid, conf, cls_id, now)"
    have split: "tbs = take i tbs @ ?tb # drop (Suc i) tbs"
      using id_take_nth_drop[OF i] tb by simp
    from run obtain ds1 frame_i self_i d frame1 self1 ds3 where
      p1: "process_boxes gp readtext plate_model names draw frame_number fps annotate frame self
             (take i tbs) = Inr (ds1, frame_i, self_i)" and
      p2: "process_box gp readtext plate_model names draw frame_number fps annotate frame_i self_i ?tb
             = Inr (d, frame1, self1)" and
      dets: "detections = ds1 @ d # ds3"
      by (subst (asm) split) (auto simp add: process_boxes_append split: sum.splits)
    have "length ds1 = i" using process_boxes_length[OF p1] i by simp
    with dets have di: "detections ! i = d" by (simp add: nth_append)
    have "d \<in> set detections" using dets by simp
    then have ns: "license_plate d \<noteq> Some ''Scanning...''"
      using process_boxes_plate[OF run] by (cases "license_plate d") auto
    from process_box_record[OF p2] p1 ns di show ?thesis by blast
  qed
  from len each show ?thesis by blast
qed

theorem unresolved_plate_is_null_witness:
  "process_frame_data gp_id reads_one_row (\<lambda>_. []) [2 \<mapsto> ''car''] (\<lambda>f b t p v. f) processor_new
       frame22 (Some [((0, 0, 2, 1), 1, 9 / 10, 2, 100), ((0, 0, 2, 2), 2, 1 / 2, 2, 100)])
       0 30 False
     = Inr (([detection_read, detection_unread], None),
            \<lparr>speed_estimator = [1 \<mapsto> \<lparr>last_frame = 0, last_pos = (1, 1), speed_history = [],
                                      current_speed = 0, stable_frames = 0, hits = 0\<rparr>,
                                2 \<mapsto> \<lparr>last_frame = 0, last_pos = (1, 2), speed_history = [],
                                      current_speed = 0, stable_frames = 0, hits = 0\<rparr>],
             alpr_reader = reader_one_plate\<lparr>ocr_calls := 2, detector_calls := 2\<rparr>\<rparr>)
   \<and> detect_and_read reads_one_row (\<lambda>_. []) reader_one_plate (crop frame22 0 2 0 2) 2 100
     = Inr (Some ''Scanning...'', reader_one_plate\<lparr>ocr_calls := 2, detector_calls := 2\<rparr>)
   \<and> license_plate ([detection_read, detection_unread] ! 1) = None
   \<and> license_plate ([detection_read, detection_unread] ! 0) = Some ''AB1234''"
proof -
  have "license_plate ([detection_read, detection_unread] ! 1) = None"
    using unresolved_plate_is_null[OF two_box_frame refl, THEN conjunct2, rule_format,
            of 1 0 0 2 2 2 "1 / 2" 2 100]
    by (simp add: first_box_read second_box_unresolved del: process_boxes.simps)
  with two_box_frame second_box_unresolved show ?thesis by simp
qed

end
